theory Spec2Isabelle
  imports Main "HOL-Library.AList" "HOL-Library.Sublist"
begin

section \<open>Data model\<close>

text \<open>
  An application instance carries its class, an instance identity and the application it
  is mounted in (\<^verbatim>\<open>app.parent\<close>, \<^verbatim>\<open>None\<close> at the root). The parent chain is part of the
  value, so it is rooted and acyclic.
\<close>

datatype app = App (app_class: string) (app_id: nat) (parent: "app option")

text \<open>
  \<^verbatim>\<open>app.lookup\<close> is the registry lookup of the application's class; every generic function
  of the framework is dispatched through such a lookup.
\<close>

datatype lookup = Lookup string

definition lookup_of :: "app \<Rightarrow> lookup" where
  "lookup_of a = Lookup (app_class a)"

text \<open>Exceptions the modelled code raises; \<open>Raised\<close> is any exception of application code.\<close>

datatype exn =
    LinkError string
  | HTTPForbidden
  | HTTPMethodNotAllowed
  | TypeError string
  | Raised string

text \<open>
  A Python dict that is iterated (URL parameters, the link prefix cache) is an association
  list with distinct keys in insertion order; \<^verbatim>\<open>d.update(e)\<close> overwrites in place and appends
  new keys.
\<close>

type_synonym params = "(string \<times> string list) list"

definition dict_update :: "('k \<times> 'v) list \<Rightarrow> ('k \<times> 'v) list \<Rightarrow> ('k \<times> 'v) list" where
  "dict_update d e = foldl (\<lambda>acc (k, v). AList.update k v acc) d e"

text \<open>
  The request (\<^verbatim>\<open>morepath.request.Request\<close>): the fields the modelled functions read or
  write. \<open>lookup\<close> aliases the lookup of some application, \<open>identity\<close> stands for the
  reified \<^verbatim>\<open>request.identity\<close>, \<open>link_prefix_cache\<close> is \<^verbatim>\<open>_link_prefix_cache\<close> keyed by
  application class.
\<close>

record request =
  app :: app
  lookup :: lookup
  unconsumed :: "string list"
  GET :: "(string \<times> string) list"
  view_name :: string
  request_method :: string
  identity :: string
  link_prefix_cache :: "(string \<times> string) list"

section \<open>Path consumption: \<^verbatim>\<open>traject_consume\<close> (core.py)\<close>

text \<open>
  Keyword arguments handed to a model factory: decoded path and query variables, the
  mount context, and the two reserved entries \<^verbatim>\<open>parent\<close> and \<^verbatim>\<open>request\<close>.
\<close>

datatype ('m, 'v) arg = Val 'v | ParentArg 'm | RequestArg request

type_synonym ('m, 'v) variables = "string \<rightharpoonup> ('m, 'v) arg"

text \<open>
  What a matched route carries: \<^verbatim>\<open>(get_model, get_parameters)\<close>. \<^verbatim>\<open>mapply(get_model, **variables)\<close>
  is the factory applied to the variable dict; it returns a model or \<^verbatim>\<open>None\<close>.
\<close>

type_synonym ('m, 'v) route_value =
  "(('m, 'v) variables \<Rightarrow> 'm option) \<times> ((string \<times> string) list \<Rightarrow> ('m, 'v) variables)"

text \<open>
  \<^verbatim>\<open>traject.consume(stack)\<close> of the routing trie (traject.py is not among the sources) is
  taken as a function from the stack to the consumption result
  \<^verbatim>\<open>(value, remaining_stack, traject_variables)\<close>; it works on a copy of the stack.
\<close>

type_synonym ('m, 'v) traject =
  "string list \<Rightarrow> ('m, 'v) route_value option \<times> string list \<times> ('m, 'v) variables"

definition traject_consume ::
  "(lookup \<Rightarrow> 'm \<Rightarrow> ('m, 'v) traject option) \<Rightarrow>
   (lookup \<Rightarrow> 'm \<Rightarrow> ('m, 'v) variables option) \<Rightarrow>
   request \<Rightarrow> 'm \<Rightarrow> lookup \<Rightarrow> 'm option \<times> request" where
  "traject_consume generic_traject generic_context req model lkp =
     (case generic_traject lkp model of
        None \<Rightarrow> (None, req)
      | Some traject \<Rightarrow>
          (case traject (unconsumed req) of
             (None, stack, traject_variables) \<Rightarrow> (None, req)
           | (Some (get_model, get_parameters), stack, traject_variables) \<Rightarrow>
               (let variables = get_parameters (GET req) in
                case generic_context lkp model of
                  None \<Rightarrow> (None, req)
                | Some ctx \<Rightarrow>
                    (let variables = variables ++ ctx;
                         variables = variables(''parent'' \<mapsto> ParentArg model);
                         variables = variables(''request'' \<mapsto> RequestArg req);
                         variables = variables ++ traject_variables
                     in case get_model variables of
                          None \<Rightarrow> (None, req)
                        | Some next_model \<Rightarrow>
                            (Some next_model, req\<lparr>unconsumed := stack\<rparr>)))))"

text \<open>The keyword arguments the factory is called with, as \<^verbatim>\<open>traject_consume\<close> builds them.\<close>

definition factory_variables ::
  "('m, 'v) variables \<Rightarrow> ('m, 'v) variables \<Rightarrow> 'm \<Rightarrow> request \<Rightarrow>
   ('m, 'v) variables \<Rightarrow> ('m, 'v) variables" where
  "factory_variables query_variables ctx model req traject_variables =
     ((query_variables ++ ctx)(''parent'' \<mapsto> ParentArg model, ''request'' \<mapsto> RequestArg req))
       ++ traject_variables"

section \<open>Following deferred applications: \<^verbatim>\<open>follow_defers\<close> (request.py)\<close>

text \<open>
  \<open>find_fn\<close> is \<^verbatim>\<open>find(app, obj)\<close>, which returns what it finds or \<^verbatim>\<open>None\<close>;
  \<^verbatim>\<open>generic.deferred_link_app(app, obj, lookup=app.lookup)\<close> names the application to try next,
  or \<^verbatim>\<open>None\<close>. The \<^verbatim>\<open>while\<close> loop may not return, so the loop is a partial function:
  \<open>None\<close> is a walk that runs forever, \<open>Some (Inl e)\<close> a raised exception and
  \<open>Some (Inr (result, app))\<close> the returned pair.
\<close>

definition circular_defer :: exn where
  "circular_defer = LinkError ''Circular defer. Cannot link to: obj''"

partial_function (option) follow_defers_loop ::
  "(app \<Rightarrow> 'o \<Rightarrow> 'r option) \<Rightarrow> (lookup \<Rightarrow> app \<Rightarrow> 'o \<Rightarrow> app option) \<Rightarrow> 'o \<Rightarrow>
   app set \<Rightarrow> app option \<Rightarrow> (exn + 'r option \<times> app option) option" where
  "follow_defers_loop find_fn deferred_link_app obj seen ap =
     (case ap of
        None \<Rightarrow> Some (Inr (None, None))
      | Some a \<Rightarrow>
          if a \<in> seen then Some (Inl circular_defer)
          else (case find_fn a obj of
                  Some result \<Rightarrow> Some (Inr (Some result, Some a))
                | None \<Rightarrow>
                    follow_defers_loop find_fn deferred_link_app obj (insert a seen)
                      (deferred_link_app (lookup_of a) a obj)))"

declare follow_defers_loop.simps [code]

definition follow_defers ::
  "(app \<Rightarrow> 'o \<Rightarrow> 'r option) \<Rightarrow> (lookup \<Rightarrow> app \<Rightarrow> 'o \<Rightarrow> app option) \<Rightarrow>
   app option \<Rightarrow> 'o \<Rightarrow> (exn + 'r option \<times> app option) option" where
  "follow_defers find_fn deferred_link_app ap obj =
     follow_defers_loop find_fn deferred_link_app obj {} ap"

subsection \<open>The walk as a sequence\<close>

text \<open>
  The applications the walk would try, one after the other: the start, the application
  it defers to, and so on; \<open>None\<close> once an application defers to none.
\<close>

fun defer_chain ::
  "(lookup \<Rightarrow> app \<Rightarrow> 'o \<Rightarrow> app option) \<Rightarrow> 'o \<Rightarrow> app option \<Rightarrow> nat \<Rightarrow> app option" where
  "defer_chain deferred_link_app obj ap 0 = ap"
| "defer_chain deferred_link_app obj ap (Suc n) =
     (case defer_chain deferred_link_app obj ap n of
        None \<Rightarrow> None
      | Some a \<Rightarrow> deferred_link_app (lookup_of a) a obj)"

text \<open>The applications tried before step \<open>n\<close>.\<close>

definition visited ::
  "(lookup \<Rightarrow> app \<Rightarrow> 'o \<Rightarrow> app option) \<Rightarrow> 'o \<Rightarrow> app option \<Rightarrow> nat \<Rightarrow> app set" where
  "visited deferred_link_app obj ap n =
     Option.these (defer_chain deferred_link_app obj ap ` {..<n})"

text \<open>
  Step \<open>n\<close> ends the walk when the chain has ended there, when its application was tried
  before (or is in the set \<open>seen\<close> the walk starts with), or when \<^verbatim>\<open>find\<close> succeeds there.
\<close>

definition walk_stops ::
  "(app \<Rightarrow> 'o \<Rightarrow> 'r option) \<Rightarrow> (lookup \<Rightarrow> app \<Rightarrow> 'o \<Rightarrow> app option) \<Rightarrow> 'o \<Rightarrow>
   app set \<Rightarrow> app option \<Rightarrow> nat \<Rightarrow> bool" where
  "walk_stops find_fn deferred_link_app obj seen ap n =
     (case defer_chain deferred_link_app obj ap n of
        None \<Rightarrow> True
      | Some a \<Rightarrow> a \<in> seen \<or> a \<in> visited deferred_link_app obj ap n \<or> find_fn a obj \<noteq> None)"

definition walk_outcome ::
  "(app \<Rightarrow> 'o \<Rightarrow> 'r option) \<Rightarrow> (lookup \<Rightarrow> app \<Rightarrow> 'o \<Rightarrow> app option) \<Rightarrow> 'o \<Rightarrow>
   app set \<Rightarrow> app option \<Rightarrow> nat \<Rightarrow> exn + 'r option \<times> app option" where
  "walk_outcome find_fn deferred_link_app obj seen ap n =
     (case defer_chain deferred_link_app obj ap n of
        None \<Rightarrow> Inr (None, None)
      | Some a \<Rightarrow>
          if a \<in> seen \<or> a \<in> visited deferred_link_app obj ap n then Inl circular_defer
          else Inr (find_fn a obj, Some a))"

text \<open>The applications on the chain that starts at \<open>ap\<close>.\<close>

definition chain_apps ::
  "(lookup \<Rightarrow> app \<Rightarrow> 'o \<Rightarrow> app option) \<Rightarrow> 'o \<Rightarrow> app option \<Rightarrow> app set" where
  "chain_apps deferred_link_app obj ap =
     {b. \<exists>n. defer_chain deferred_link_app obj ap n = Some b}"

section \<open>Strings and URL encoding (Python built-ins and \<^verbatim>\<open>urllib\<close>)\<close>

text \<open>
  Strings are byte strings: \<^verbatim>\<open>path.encode('utf-8')\<close> is the identity on them.
  \<^verbatim>\<open>sep.join(xs)\<close>, \<^verbatim>\<open>s.strip(chars)\<close> and \<^verbatim>\<open>s.replace(old, new)\<close> are Python's.
\<close>

fun join :: "string \<Rightarrow> string list \<Rightarrow> string" where
  "join sep [] = []"
| "join sep [x] = x"
| "join sep (x # y # ys) = x @ sep @ join sep (y # ys)"

definition strip :: "string \<Rightarrow> string \<Rightarrow> string" where
  "strip chars s =
     rev (dropWhile (\<lambda>c. c \<in> set chars) (rev (dropWhile (\<lambda>c. c \<in> set chars) s)))"

function str_replace :: "string \<Rightarrow> string \<Rightarrow> string \<Rightarrow> string" where
  "str_replace old new s =
     (if old = [] then new @ concat (map (\<lambda>c. c # new) s)
      else if s = [] then []
      else if prefix old s then new @ str_replace old new (drop (length old) s)
      else hd s # str_replace old new (tl s))"
  by pat_completeness auto
termination
  by (relation "measure (\<lambda>(old, new, s). length s)") auto

text \<open>
  \<^verbatim>\<open>urllib.quote(bytes, safe)\<close>: a byte that is a letter, a digit, one of \<^verbatim>\<open>_.-\<close> or in \<^verbatim>\<open>safe\<close>
  stands for itself, any other byte becomes \<^verbatim>\<open>%XX\<close> in upper-case hexadecimal. Whether \<^verbatim>\<open>~\<close>
  is among the always-safe bytes depends on the Python release (it is from 3.7 on, the
  subject of Python issue 16285); \<open>tilde_safe\<close> says which.
\<close>

definition hex_digit :: "nat \<Rightarrow> char" where
  "hex_digit n = ''0123456789ABCDEF'' ! (n mod 16)"

definition always_safe :: "bool \<Rightarrow> char \<Rightarrow> bool" where
  "always_safe tilde_safe c =
     (let n = (of_char c :: nat) in
      (65 \<le> n \<and> n \<le> 90) \<or> (97 \<le> n \<and> n \<le> 122) \<or> (48 \<le> n \<and> n \<le> 57) \<or>
      c \<in> set ''_.-'' \<or> (tilde_safe \<and> c = CHR ''~''))"

definition quote_byte :: "bool \<Rightarrow> string \<Rightarrow> char \<Rightarrow> string" where
  "quote_byte tilde_safe safe c =
     (if always_safe tilde_safe c \<or> c \<in> set safe then [c]
      else [CHR ''%'', hex_digit ((of_char c :: nat) div 16), hex_digit ((of_char c :: nat) mod 16)])"

definition quote :: "bool \<Rightarrow> string \<Rightarrow> string \<Rightarrow> string" where
  "quote tilde_safe s safe = concat (map (quote_byte tilde_safe safe) s)"

definition quote_plus :: "bool \<Rightarrow> string \<Rightarrow> string" where
  "quote_plus tilde_safe s =
     (if CHR '' '' \<notin> set s then quote tilde_safe s []
      else str_replace '' '' ''+'' (quote tilde_safe s '' ''))"

text \<open>\<^verbatim>\<open>urlencode(query, doseq=True)\<close> for a dict whose values are lists of byte strings.\<close>

definition urlencode :: "bool \<Rightarrow> params \<Rightarrow> string" where
  "urlencode tilde_safe query =
     join ''&'' (concat (map (\<lambda>(k, v).
        map (\<lambda>elt. quote_plus tilde_safe k @ ''='' @ quote_plus tilde_safe elt) v) query))"

text \<open>\<^verbatim>\<open>fixed_urlencode\<close> (request.py): \<^verbatim>\<open>urlencode(s, doseq).replace('%7E', '~')\<close>.\<close>

definition fixed_urlencode :: "bool \<Rightarrow> params \<Rightarrow> string" where
  "fixed_urlencode tilde_safe s = str_replace ''%7E'' ''~'' (urlencode tilde_safe s)"


subsection \<open>Percent-encoding tokens\<close>


text \<open>Escapes of upper-case hexadecimal digits other than \<^verbatim>\<open>%7E\<close>, and escapes of any kind.\<close>

definition is_upper_hex :: "char \<Rightarrow> bool" where
  "is_upper_hex c = (c \<in> set ''0123456789ABCDEF'')"

definition no_tilde_escape :: "char \<Rightarrow> char \<Rightarrow> bool" where
  "no_tilde_escape h1 h2 =
     (is_upper_hex h1 \<and> is_upper_hex h2 \<and> \<not> (h1 = CHR ''7'' \<and> h2 = CHR ''E''))"

definition any_escape :: "char \<Rightarrow> char \<Rightarrow> bool" where
  "any_escape h1 h2 = (h1 \<noteq> CHR ''%'' \<and> h2 \<noteq> CHR ''%'')"



section \<open>Link building (request.py)\<close>

text \<open>
  \<^verbatim>\<open>generic.path(obj, lookup=app.lookup)\<close> is asked for model objects and for mounted
  applications; it returns \<^verbatim>\<open>(path, parameters)\<close> or \<^verbatim>\<open>None\<close>.
\<close>

datatype 'm linkable = Model 'm | Mounted app

type_synonym 'm generic_path = "lookup \<Rightarrow> 'm linkable \<Rightarrow> (string \<times> params) option"

text \<open>
  The loop of \<^verbatim>\<open>mounted_link\<close>: \<open>obj\<close> is the application last linked, \<open>ap\<close> the application
  it is mounted in.
\<close>

function mounted_link_loop ::
  "'m generic_path \<Rightarrow> string list \<Rightarrow> params \<Rightarrow> app \<Rightarrow> app option \<Rightarrow>
   (string list \<times> params) option" where
  "mounted_link_loop generic_path result parameters obj None = Some (result, parameters)"
| "mounted_link_loop generic_path result parameters obj (Some a) =
     (case generic_path (lookup_of a) (Mounted obj) of
        None \<Rightarrow> None
      | Some (path, params) \<Rightarrow>
          mounted_link_loop generic_path (result @ [path]) (dict_update parameters params)
            a (parent a))"
  by pat_completeness auto
termination
proof (relation "measure (\<lambda>(generic_path, result, parameters, obj, ap). size_option size ap)")
  fix generic_path :: "'m generic_path" and result :: "string list" and parameters :: params
    and obj a :: app and x2 :: "string \<times> params" and path :: string and params :: params
  show "((generic_path, result @ [path], dict_update parameters params, a, parent a),
         (generic_path, result, parameters, obj, Some a))
        \<in> measure (\<lambda>(generic_path, result, parameters, obj, ap). size_option size ap)"
    by (cases a) simp
qed simp

definition mounted_link ::
  "'m generic_path \<Rightarrow> string \<Rightarrow> params \<Rightarrow> app \<Rightarrow> (string \<times> params) option" where
  "mounted_link generic_path path parameters a =
     (case mounted_link_loop generic_path [path] parameters a (parent a) of
        None \<Rightarrow> None
      | Some (result, parameters') \<Rightarrow> Some (strip ''/'' (join ''/'' (rev result)), parameters'))"

definition link :: "'m generic_path \<Rightarrow> 'm \<Rightarrow> app \<Rightarrow> (string \<times> params) option" where
  "link generic_path obj a =
     (case generic_path (lookup_of a) (Model obj) of
        None \<Rightarrow> None
      | Some (path, parameters) \<Rightarrow> mounted_link generic_path path parameters a)"

text \<open>\<^verbatim>\<open>Request.link_prefix\<close>, cached per application class.\<close>

definition link_prefix :: "(lookup \<Rightarrow> request \<Rightarrow> string) \<Rightarrow> request \<Rightarrow> string \<times> request" where
  "link_prefix generic_link_prefix req =
     (case map_of (link_prefix_cache req) (app_class (app req)) of
        Some cached \<Rightarrow> (cached, req)
      | None \<Rightarrow>
          (let prefix = generic_link_prefix (lookup req) req
           in (prefix, req\<lparr>link_prefix_cache :=
                 AList.update (app_class (app req)) prefix (link_prefix_cache req)\<rparr>)))"

text \<open>\<^verbatim>\<open>Request._encode_link\<close>.\<close>

definition encode_link ::
  "bool \<Rightarrow> (lookup \<Rightarrow> request \<Rightarrow> string) \<Rightarrow> request \<Rightarrow> string \<Rightarrow> string \<Rightarrow> params \<Rightarrow>
   string \<times> request" where
  "encode_link tilde_safe generic_link_prefix req path name parameters =
     (let parts = (if path \<noteq> [] then [quote tilde_safe path ''/~''] else []) @
                  (if name \<noteq> [] then [name] else []);
          (prefix, req') = link_prefix generic_link_prefix req;
          result = prefix @ ''/'' @ join ''/'' parts
      in if parameters \<noteq> []
         then (result @ ''?'' @ fixed_urlencode tilde_safe parameters, req')
         else (result, req'))"

text \<open>
  The \<^verbatim>\<open>app\<close> argument of \<^verbatim>\<open>Request.link\<close> and \<^verbatim>\<open>Request.view\<close>: the sentinel \<^verbatim>\<open>SAME_APP\<close>, or an
  application or \<^verbatim>\<open>None\<close>.
\<close>

datatype app_arg = SAME_APP | Given "app option"

definition cannot_link :: exn where
  "cannot_link = LinkError ''Cannot link to: obj''"

text \<open>
  \<^verbatim>\<open>Request.link\<close>. The result is \<open>None\<close> when the walk of \<^verbatim>\<open>follow_defers\<close> does not return,
  else the raised exception or the returned value (a URL, or the default \<open>dflt\<close> for the object
  \<^verbatim>\<open>None\<close>), with the request as the call leaves it.
\<close>

definition Request_link ::
  "bool \<Rightarrow> 'm generic_path \<Rightarrow> (lookup \<Rightarrow> app \<Rightarrow> 'm \<Rightarrow> app option) \<Rightarrow>
   (lookup \<Rightarrow> request \<Rightarrow> string) \<Rightarrow> request \<Rightarrow> 'm option \<Rightarrow> string \<Rightarrow> string option \<Rightarrow>
   app_arg \<Rightarrow> ((exn + string option) \<times> request) option" where
  "Request_link tilde_safe generic_path deferred_link_app generic_link_prefix req obj name
     dflt ap =
     (case obj of
        None \<Rightarrow> Some (Inr dflt, req)
      | Some ob \<Rightarrow>
          (case ap of
             Given None \<Rightarrow> Some (Inl (LinkError ''Cannot link: app is None''), req)
           | _ \<Rightarrow>
               (let a = (case ap of Given (Some given) \<Rightarrow> given | _ \<Rightarrow> app req)
                in case follow_defers (\<lambda>a ob. link generic_path ob a) deferred_link_app
                          (Some a) ob of
                     None \<Rightarrow> None
                   | Some (Inl e) \<Rightarrow> Some (Inl e, req)
                   | Some (Inr (None, found_in)) \<Rightarrow> Some (Inl cannot_link, req)
                   | Some (Inr (Some (path, parameters), found_in)) \<Rightarrow>
                       (case encode_link tilde_safe generic_link_prefix req path name parameters of
                          (url, req') \<Rightarrow> Some (Inr (Some url), req')))))"

text \<open>
  What each mount of the chain above \<open>a\<close> contributes, from \<open>a\<close>'s own mount to the root's:
  the path information of each application in its parent.
\<close>

fun mount_fragments :: "'m generic_path \<Rightarrow> app \<Rightarrow> (string \<times> params) option list" where
  "mount_fragments generic_path (App c i None) = []"
| "mount_fragments generic_path (App c i (Some p)) =
     generic_path (lookup_of p) (Mounted (App c i (Some p))) # mount_fragments generic_path p"

section \<open>Views and responses (core.py, request.py)\<close>

text \<open>
  A response, and what a view function returns: content to be rendered, or a response
  of its own (\<^verbatim>\<open>isinstance(content, BaseResponse)\<close>).
\<close>

datatype 'c response = Response (body: 'c) (content_type: string)

datatype 'c content = Content 'c | FullResponse "'c response"

text \<open>
  The state a view call works on: the request with the callbacks registered through
  \<^verbatim>\<open>request.after\<close> (\<^verbatim>\<open>_after\<close>), and the process-wide implicit lookup that
  \<^verbatim>\<open>app.set_implicit()\<close> sets.
\<close>

record 'c view_request = request +
  after :: "('c response \<Rightarrow> 'c response) list"
  implicit_lookup :: lookup

text \<open>
  A \<^verbatim>\<open>View\<close> (view.py is not among the sources): the view function, the optional render
  function, the optional permission and the \<^verbatim>\<open>internal\<close> flag. The view function takes the
  model object and the request; it returns content or raises, and leaves the request as
  its effects made it.
\<close>

record ('m, 'c) view =
  func :: "'m \<Rightarrow> 'c view_request \<Rightarrow> (exn + 'c content) \<times> 'c view_request"
  render :: "('c \<Rightarrow> 'c view_request \<Rightarrow> 'c response) option"
  permission :: "string option"
  internal :: bool

text \<open>
  \<^verbatim>\<open>view(request, obj)\<close> for a \<^verbatim>\<open>View\<close>: \<^verbatim>\<open>View.__call__\<close> is taken to call the view function, as
  \<^verbatim>\<open>Request.view\<close> does directly with \<^verbatim>\<open>view.func(obj, self)\<close>.
\<close>

definition call_view ::
  "('m, 'c) view \<Rightarrow> 'c view_request \<Rightarrow> 'm \<Rightarrow> (exn + 'c content) \<times> 'c view_request" where
  "call_view v req obj = func v obj req"

text \<open>
  What \<^verbatim>\<open>generic.view.component(request, obj, lookup=...)\<close> returns: a \<^verbatim>\<open>View\<close>, some other
  callable (a predicate fallback), or \<^verbatim>\<open>None\<close>.
\<close>

datatype ('m, 'c) component =
    ViewComponent "('m, 'c) view"
  | FunctionComponent "'c view_request \<Rightarrow> 'm \<Rightarrow> (exn + 'c response option) \<times> 'c view_request"
  | NoComponent

text \<open>\<^verbatim>\<open>Request.run_after\<close>: each callback is applied to the response, in order.\<close>

definition run_after :: "'c view_request \<Rightarrow> 'c response \<Rightarrow> 'c response" where
  "run_after req response = foldl (\<lambda>r callback. callback r) response (after req)"

text \<open>
  \<^verbatim>\<open>get_response\<close> (core.py). \<open>generic_view_component\<close> is \<^verbatim>\<open>generic.view.component\<close> and
  \<open>generic_permits\<close> is \<^verbatim>\<open>generic.permits\<close>, both dispatched through \<^verbatim>\<open>request.lookup\<close>.
\<close>

definition get_response ::
  "(lookup \<Rightarrow> 'c view_request \<Rightarrow> 'm \<Rightarrow> ('m, 'c) component) \<Rightarrow>
   (lookup \<Rightarrow> string \<Rightarrow> 'm \<Rightarrow> string \<Rightarrow> bool) \<Rightarrow>
   'c view_request \<Rightarrow> 'm \<Rightarrow> (exn + 'c response option) \<times> 'c view_request" where
  "get_response generic_view_component generic_permits req obj =
     (case generic_view_component (lookup req) req obj of
        NoComponent \<Rightarrow> (Inl (TypeError ''NoneType object is not callable''), req)
      | FunctionComponent f \<Rightarrow> f req obj
      | ViewComponent v \<Rightarrow>
          if internal v then (Inr None, req)
          else if (case permission v of
                     None \<Rightarrow> False
                   | Some p \<Rightarrow> \<not> generic_permits (lookup req) (identity req) obj p)
          then (Inl HTTPForbidden, req)
          else (case call_view v req obj of
                  (Inl e, req') \<Rightarrow> (Inl e, req')
                | (Inr (FullResponse r), req') \<Rightarrow> (Inr (Some r), req')
                | (Inr (Content c), req') \<Rightarrow>
                    (let response =
                       (case render v of
                          Some rnd \<Rightarrow> rnd c req'
                        | None \<Rightarrow> Response c ''text/plain'')
                     in (Inr (Some (run_after req' response)), req'))))"

text \<open>The predicate fallbacks of core.py; a fallback is called as \<^verbatim>\<open>view(request, obj)\<close>.\<close>

definition obj_not_found ::
  "'c view_request \<Rightarrow> 'm \<Rightarrow> (exn + 'c response option) \<times> 'c view_request" where
  "obj_not_found self req = (Inr None, self)"

definition name_not_found ::
  "'c view_request \<Rightarrow> 'm \<Rightarrow> (exn + 'c response option) \<times> 'c view_request" where
  "name_not_found self req = (Inr None, self)"

definition method_not_allowed ::
  "'c view_request \<Rightarrow> 'm \<Rightarrow> (exn + 'c response option) \<times> 'c view_request" where
  "method_not_allowed self req = (Inl HTTPMethodNotAllowed, self)"

text \<open>
  \<^verbatim>\<open>Request.view\<close>. \<open>component_key_dict\<close> is \<^verbatim>\<open>generic.view.component_key_dict\<close>, asked with the
  lookup of the application tried and the predicates, among them \<^verbatim>\<open>model\<close>, the class of
  the object (\<open>obj_class\<close>). The result is \<open>None\<close> when the walk of \<^verbatim>\<open>follow_defers\<close> does not
  return. The code has no \<^verbatim>\<open>try\<close>: an exception of the view function leaves the method
  at once.
\<close>

definition Request_view ::
  "(lookup \<Rightarrow> (string \<rightharpoonup> string) \<Rightarrow> ('m, 'c) view option) \<Rightarrow>
   (lookup \<Rightarrow> app \<Rightarrow> 'm \<Rightarrow> app option) \<Rightarrow> ('m \<Rightarrow> string) \<Rightarrow>
   'c view_request \<Rightarrow> 'm \<Rightarrow> 'c content option \<Rightarrow> app_arg \<Rightarrow> (string \<rightharpoonup> string) \<Rightarrow>
   ((exn + 'c content option) \<times> 'c view_request) option" where
  "Request_view component_key_dict deferred_link_app obj_class req obj dflt ap predicates =
     (case ap of
        Given None \<Rightarrow> Some (Inl (LinkError ''Cannot view: app is None''), req)
      | _ \<Rightarrow>
          (let a = (case ap of Given (Some given) \<Rightarrow> given | _ \<Rightarrow> app req);
               predicates = predicates(''model'' \<mapsto> obj_class obj)
           in case follow_defers (\<lambda>a ob. component_key_dict (lookup_of a) predicates)
                     deferred_link_app (Some a) obj of
                None \<Rightarrow> None
              | Some (Inl e) \<Rightarrow> Some (Inl e, req)
              | Some (Inr (None, found_in)) \<Rightarrow> Some (Inr dflt, req)
              | Some (Inr (Some v, None)) \<Rightarrow>
                  Some (Inl (Raised ''AttributeError: set_implicit''), req)
              | Some (Inr (Some v, Some found_in)) \<Rightarrow>
                  (let old_app = app req;
                       old_lookup = lookup req;
                       req = req\<lparr>implicit_lookup := lookup_of found_in\<rparr>;
                       req = req\<lparr>app := found_in\<rparr>;
                       req = req\<lparr>lookup := lookup_of found_in\<rparr>
                   in case func v obj req of
                        (Inl e, req) \<Rightarrow> Some (Inl e, req)
                      | (Inr result, req) \<Rightarrow>
                          (let req = req\<lparr>implicit_lookup := lookup_of old_app\<rparr>;
                               req = req\<lparr>app := old_app\<rparr>;
                               req = req\<lparr>lookup := old_lookup\<rparr>
                           in Some (Inr (Some result), req)))))"

section \<open>Example configurations\<close>

subsection \<open>Path consumption\<close>

text \<open>
  The application of \<^verbatim>\<open>test_register_path\<close>: route \<^verbatim>\<open>''\<close> yields the root, route \<^verbatim>\<open>{id}\<close>
  yields a model for the segment, except that the factory knows no model for the
  segment \<^verbatim>\<open>missing\<close>.
\<close>

definition ex_app :: app where
  "ex_app = App ''App'' 0 None"

definition ex_request :: "string list \<Rightarrow> request" where
  "ex_request stack =
     \<lparr>app = ex_app, lookup = lookup_of ex_app, unconsumed = stack, GET = [],
      view_name = [], request_method = ''GET'', identity = [], link_prefix_cache = []\<rparr>"

definition ex_get_model :: "(string, string) variables \<Rightarrow> string option" where
  "ex_get_model variables =
     (case variables ''id'' of
        Some (Val x) \<Rightarrow> if x = ''missing'' then None else Some (''Model '' @ x)
      | _ \<Rightarrow> None)"

definition ex_root_model :: "(string, string) variables \<Rightarrow> string option" where
  "ex_root_model variables = Some ''Root''"

definition ex_traject :: "(string, string) traject" where
  "ex_traject stack =
     (case stack of
        [] \<Rightarrow> (Some (ex_root_model, \<lambda>q. Map.empty), [], Map.empty)
      | seg # rest \<Rightarrow>
          if seg = ''nothing'' then (None, stack, Map.empty)
          else (Some (ex_get_model, \<lambda>q. Map.empty), rest, [''id'' \<mapsto> Val seg]))"

definition ex_generic_traject :: "lookup \<Rightarrow> string \<Rightarrow> (string, string) traject option" where
  "ex_generic_traject lkp model = (if model = ''App'' \<or> model = ''Bare'' then Some ex_traject else None)"

definition ex_generic_context :: "lookup \<Rightarrow> string \<Rightarrow> (string, string) variables option" where
  "ex_generic_context lkp model = (if model = ''App'' then Some Map.empty else None)"

subsection \<open>Deferred links\<close>

text \<open>
  A root application that finds nothing, with three ways of deferring: to no application;
  the root to a child instance and every mounted application to \<^verbatim>\<open>app.parent\<close>; and every
  application to a new child instance of its own.
\<close>

definition ex_app_a :: app where
  "ex_app_a = App ''A'' 1 None"

definition ex_find_nothing :: "app \<Rightarrow> string \<Rightarrow> string option" where
  "ex_find_nothing a obj = None"

definition ex_no_defer :: "lookup \<Rightarrow> app \<Rightarrow> string \<Rightarrow> app option" where
  "ex_no_defer lkp a obj = None"

definition ex_child_parent_defer :: "lookup \<Rightarrow> app \<Rightarrow> string \<Rightarrow> app option" where
  "ex_child_parent_defer lkp a obj =
     (case parent a of None \<Rightarrow> Some (App ''Child'' 2 (Some a)) | Some p \<Rightarrow> Some p)"

definition ex_fresh_defer :: "lookup \<Rightarrow> app \<Rightarrow> string \<Rightarrow> app option" where
  "ex_fresh_defer lkp a obj = Some (App ''Child'' (Suc (app_id a)) (Some a))"

subsection \<open>Mounted applications\<close>

text \<open>
  \<^verbatim>\<open>Inner\<close> is mounted in \<^verbatim>\<open>Outer\<close> at \<^verbatim>\<open>inner\<close> (the mount adds the URL parameter \<^verbatim>\<open>lang\<close>);
  inside \<^verbatim>\<open>Inner\<close> a model has its name as its path and the URL parameter \<^verbatim>\<open>page\<close>. \<^verbatim>\<open>Outer\<close>
  itself serves models under \<^verbatim>\<open>shared/\<close>. A second instance of \<^verbatim>\<open>Inner\<close> hangs in an
  application \<^verbatim>\<open>Other\<close> that has no path for it.
\<close>

definition ex_outer :: app where
  "ex_outer = App ''Outer'' 10 None"

definition ex_inner :: app where
  "ex_inner = App ''Inner'' 11 (Some ex_outer)"

definition ex_other :: app where
  "ex_other = App ''Other'' 13 None"

definition ex_orphan :: app where
  "ex_orphan = App ''Inner'' 12 (Some ex_other)"

definition ex_generic_path :: "string generic_path" where
  "ex_generic_path lkp ob =
     (case ob of
        Model m \<Rightarrow>
          if lkp = Lookup ''Inner'' then Some (m, [(''page'', [''2''])])
          else if lkp = Lookup ''Outer'' then Some (''shared/'' @ m, [])
          else None
      | Mounted a \<Rightarrow>
          if lkp = Lookup ''Outer'' \<and> app_class a = ''Inner''
          then Some (''inner'', [(''lang'', [''en''])])
          else None)"

definition ex_defer_to_outer :: "lookup \<Rightarrow> app \<Rightarrow> string \<Rightarrow> app option" where
  "ex_defer_to_outer lkp a obj = (if lkp = Lookup ''Inner'' then Some ex_outer else None)"

definition ex_link_prefix :: "lookup \<Rightarrow> request \<Rightarrow> string" where
  "ex_link_prefix lkp req = ''http://localhost''"

definition ex_request_in :: "app \<Rightarrow> request" where
  "ex_request_in a =
     \<lparr>app = a, lookup = lookup_of a, unconsumed = [], GET = [],
      view_name = [], request_method = ''GET'', identity = [], link_prefix_cache = []\<rparr>"

subsection \<open>Views\<close>

text \<open>
  The application of \<^verbatim>\<open>test_internal\<close>: the root has a default view that calls
  \<^verbatim>\<open>request.view(self, name='internal')\<close>, and an internal view named \<^verbatim>\<open>internal\<close>. Added to
  it: a view \<^verbatim>\<open>edit\<close> that requires the permission \<^verbatim>\<open>edit\<close>, an internal view \<^verbatim>\<open>secret\<close> that
  requires it too, and, in the application \<^verbatim>\<open>Inner\<close>, a view \<^verbatim>\<open>broken\<close> that raises and a view
  \<^verbatim>\<open>fine\<close> that returns. Only the identity \<^verbatim>\<open>admin\<close> has any permission.
\<close>

definition ex_view_request :: "app \<Rightarrow> string \<Rightarrow> string \<Rightarrow> string view_request" where
  "ex_view_request a name ident =
     \<lparr>app = a, lookup = lookup_of a, unconsumed = [], GET = [],
      view_name = name, request_method = ''GET'', identity = ident, link_prefix_cache = [],
      after = [], implicit_lookup = lookup_of a\<rparr>"

definition ex_internal_view :: "(string, string) view" where
  "ex_internal_view =
     \<lparr>func = (\<lambda>obj req. (Inr (Content ''Internal!''), req)), render = None,
      permission = None, internal = True\<rparr>"

definition ex_edit_view :: "(string, string) view" where
  "ex_edit_view =
     \<lparr>func = (\<lambda>obj req. (Inr (Content ''edited''), req)), render = None,
      permission = Some ''edit'', internal = False\<rparr>"

definition ex_secret_view :: "(string, string) view" where
  "ex_secret_view =
     \<lparr>func = (\<lambda>obj req. (Inr (Content ''secret''), req)), render = None,
      permission = Some ''edit'', internal = True\<rparr>"

definition ex_broken_view :: "(string, string) view" where
  "ex_broken_view =
     \<lparr>func = (\<lambda>obj req. (Inl (Raised ''boom''), req)), render = None,
      permission = None, internal = False\<rparr>"

definition ex_fine_view :: "(string, string) view" where
  "ex_fine_view =
     \<lparr>func = (\<lambda>obj req. (Inr (Content ''fine''), req)), render = None,
      permission = None, internal = False\<rparr>"

definition ex_component_key_dict ::
  "lookup \<Rightarrow> (string \<rightharpoonup> string) \<Rightarrow> (string, string) view option" where
  "ex_component_key_dict lkp predicates =
     (if predicates ''model'' \<noteq> Some ''Root'' then None
      else if lkp = Lookup ''Outer'' \<and> predicates ''name'' = Some ''internal''
      then Some ex_internal_view
      else if lkp = Lookup ''Inner'' \<and> predicates ''name'' = Some ''broken''
      then Some ex_broken_view
      else if lkp = Lookup ''Inner'' \<and> predicates ''name'' = Some ''fine''
      then Some ex_fine_view
      else None)"

definition ex_obj_class :: "string \<Rightarrow> string" where
  "ex_obj_class obj = ''Root''"

definition ex_default_view :: "(string, string) view" where
  "ex_default_view =
     \<lparr>func = (\<lambda>obj req.
        case Request_view ex_component_key_dict ex_no_defer ex_obj_class req obj None
               SAME_APP [''name'' \<mapsto> ''internal''] of
          Some (Inr (Some (Content c)), req') \<Rightarrow> (Inr (Content (''internal: '' @ c)), req')
        | Some (Inl e, req') \<Rightarrow> (Inl e, req')
        | _ \<Rightarrow> (Inl (Raised ''no internal view''), req)),
      render = None, permission = None, internal = False\<rparr>"

definition ex_view_component ::
  "lookup \<Rightarrow> string view_request \<Rightarrow> string \<Rightarrow> (string, string) component" where
  "ex_view_component lkp req obj =
     (if view_name req = [] then ViewComponent ex_default_view
      else if view_name req = ''internal'' then ViewComponent ex_internal_view
      else if view_name req = ''edit'' then ViewComponent ex_edit_view
      else if view_name req = ''secret'' then ViewComponent ex_secret_view
      else FunctionComponent name_not_found)"

definition ex_permits :: "lookup \<Rightarrow> string \<Rightarrow> string \<Rightarrow> string \<Rightarrow> bool" where
  "ex_permits lkp ident obj p = (ident = ''admin'')"

(*THEOREMS*)

section \<open>Properties of path consumption\<close>

lemma traject_consume_no_traject:
  "generic_traject lkp model = None \<Longrightarrow>
   traject_consume generic_traject generic_context req model lkp = (None, req)"
  by (simp add: traject_consume_def)

lemma traject_consume_no_match:
  "generic_traject lkp model = Some traject \<Longrightarrow>
   traject (unconsumed req) = (None, stack, tv) \<Longrightarrow>
   traject_consume generic_traject generic_context req model lkp = (None, req)"
  by (simp add: traject_consume_def)

lemma traject_consume_no_context:
  "generic_traject lkp model = Some traject \<Longrightarrow>
   traject (unconsumed req) = (Some (get_model, get_parameters), stack, tv) \<Longrightarrow>
   generic_context lkp model = None \<Longrightarrow>
   traject_consume generic_traject generic_context req model lkp = (None, req)"
  by (simp add: traject_consume_def)

lemma traject_consume_factory:
  "generic_traject lkp model = Some traject \<Longrightarrow>
   traject (unconsumed req) = (Some (get_model, get_parameters), stack, tv) \<Longrightarrow>
   generic_context lkp model = Some ctx \<Longrightarrow>
   traject_consume generic_traject generic_context req model lkp =
     (case get_model (factory_variables (get_parameters (GET req)) ctx model req tv) of
        None \<Rightarrow> (None, req)
      | Some next_model \<Rightarrow> (Some next_model, req\<lparr>unconsumed := stack\<rparr>))"
  by (simp add: traject_consume_def factory_variables_def Let_def)


text \<open>
  C7. When the trie matches a route and the model factory, called with the variables
  assembled for it, returns no model, \<^verbatim>\<open>traject_consume\<close> returns \<^verbatim>\<open>None\<close> and leaves the
  request as it was: the very result it gives when the trie does not match at all.
\<close>

theorem traject_consume_absent_model_is_non_match:
  assumes "generic_traject lkp model = Some traject"
    and "traject (unconsumed req) = (Some (get_model, get_parameters), stack, tv)"
    and "generic_context lkp model = Some ctx"
    and "get_model (factory_variables (get_parameters (GET req)) ctx model req tv) = None"
    and "no_match (unconsumed req) = (None, stack', tv')"
  shows "traject_consume generic_traject generic_context req model lkp = (None, req) \<and>
         traject_consume generic_traject generic_context req model lkp =
           traject_consume (\<lambda>l m. Some no_match) generic_context req model lkp"
  using assms by (simp add: traject_consume_def factory_variables_def Let_def)

theorem traject_consume_absent_model_is_non_match_witness:
  "traject_consume ex_generic_traject ex_generic_context (ex_request [''missing''])
     ''App'' (Lookup ''App'') = (None, ex_request [''missing'']) \<and>
   traject_consume ex_generic_traject ex_generic_context (ex_request [''missing''])
     ''App'' (Lookup ''App'') =
   traject_consume (\<lambda>l m. Some (\<lambda>s. (None, s, Map.empty))) ex_generic_context
     (ex_request [''missing'']) ''App'' (Lookup ''App'')"
  by (rule traject_consume_absent_model_is_non_match
        [where traject = ex_traject and get_model = ex_get_model
           and get_parameters = "\<lambda>q. Map.empty" and stack = "[]"
           and tv = "[''id'' \<mapsto> Val ''missing'']" and ctx = Map.empty
           and stack' = "[''missing'']" and tv' = Map.empty])
     (simp_all add: ex_generic_traject_def ex_generic_context_def ex_traject_def
        ex_request_def ex_get_model_def factory_variables_def)

text \<open>
  C10. On each failure path of \<^verbatim>\<open>traject_consume\<close> (no traject for the mount, no trie match,
  no mount context, the factory returning \<^verbatim>\<open>None\<close>) the result is \<^verbatim>\<open>None\<close> and the request,
  \<^verbatim>\<open>request.unconsumed\<close> included, is unchanged; only when the factory produces a model is
  \<^verbatim>\<open>request.unconsumed\<close> replaced, by the stack the trie left.
\<close>

theorem traject_consume_unconsumed_atomic:
  "(generic_traject lkp model = None \<longrightarrow>
      traject_consume generic_traject generic_context req model lkp = (None, req)) \<and>
   (generic_traject lkp model = Some traject \<and>
    traject (unconsumed req) = (None, stack, tv) \<longrightarrow>
      traject_consume generic_traject generic_context req model lkp = (None, req)) \<and>
   (generic_traject lkp model = Some traject \<and>
    traject (unconsumed req) = (Some (get_model, get_parameters), stack, tv) \<and>
    generic_context lkp model = None \<longrightarrow>
      traject_consume generic_traject generic_context req model lkp = (None, req)) \<and>
   (generic_traject lkp model = Some traject \<and>
    traject (unconsumed req) = (Some (get_model, get_parameters), stack, tv) \<and>
    generic_context lkp model = Some ctx \<and>
    get_model (factory_variables (get_parameters (GET req)) ctx model req tv) = None \<longrightarrow>
      traject_consume generic_traject generic_context req model lkp = (None, req)) \<and>
   (generic_traject lkp model = Some traject \<and>
    traject (unconsumed req) = (Some (get_model, get_parameters), stack, tv) \<and>
    generic_context lkp model = Some ctx \<and>
    get_model (factory_variables (get_parameters (GET req)) ctx model req tv) = Some next_model \<longrightarrow>
      traject_consume generic_traject generic_context req model lkp =
        (Some next_model, req\<lparr>unconsumed := stack\<rparr>)) \<and>
   (fst (traject_consume generic_traject generic_context req model lkp) = None \<longrightarrow>
      snd (traject_consume generic_traject generic_context req model lkp) = req)"
proof -
  have "fst (traject_consume generic_traject generic_context req model lkp) = None \<longrightarrow>
        snd (traject_consume generic_traject generic_context req model lkp) = req"
    by (simp add: traject_consume_def Let_def split: option.splits prod.splits)
  then show ?thesis
    by (simp add: traject_consume_no_traject traject_consume_no_match
        traject_consume_no_context traject_consume_factory)
qed

theorem traject_consume_unconsumed_atomic_witness:
  "traject_consume ex_generic_traject ex_generic_context (ex_request [''a'', ''b''])
     ''Other'' (Lookup ''App'') = (None, ex_request [''a'', ''b'']) \<and>
   traject_consume ex_generic_traject ex_generic_context (ex_request [''nothing'', ''b''])
     ''App'' (Lookup ''App'') = (None, ex_request [''nothing'', ''b'']) \<and>
   traject_consume ex_generic_traject ex_generic_context (ex_request [''a'', ''b''])
     ''Bare'' (Lookup ''App'') = (None, ex_request [''a'', ''b'']) \<and>
   traject_consume ex_generic_traject ex_generic_context (ex_request [''missing'', ''b''])
     ''App'' (Lookup ''App'') = (None, ex_request [''missing'', ''b'']) \<and>
   traject_consume ex_generic_traject ex_generic_context (ex_request [''a'', ''b''])
     ''App'' (Lookup ''App'') = (Some ''Model a'', ex_request [''b''])"
proof -
  let ?L = "Lookup ''App''"
  have no_traject: "ex_generic_traject ?L ''Other'' = None"
    by (simp add: ex_generic_traject_def)
  have traject: "ex_generic_traject ?L ''App'' = Some ex_traject"
    "ex_generic_traject ?L ''Bare'' = Some ex_traject"
    by (simp_all add: ex_generic_traject_def)
  have ctx: "ex_generic_context ?L ''App'' = Some Map.empty"
    "ex_generic_context ?L ''Bare'' = None"
    by (simp_all add: ex_generic_context_def)
  have no_match: "ex_traject (unconsumed (ex_request [''nothing'', ''b''])) =
      (None, [''nothing'', ''b''], Map.empty)"
    by (simp add: ex_traject_def ex_request_def)
  have match: "ex_traject (unconsumed (ex_request [seg, ''b''])) =
      (Some (ex_get_model, \<lambda>q. Map.empty), [''b''], [''id'' \<mapsto> Val seg])"
    if "seg \<noteq> ''nothing''" for seg
    using that by (simp add: ex_traject_def ex_request_def)
  have absent: "ex_get_model (factory_variables Map.empty Map.empty ''App''
      (ex_request [''missing'', ''b'']) [''id'' \<mapsto> Val ''missing'']) = None"
    by (simp add: ex_get_model_def factory_variables_def)
  have present: "ex_get_model (factory_variables Map.empty Map.empty ''App''
      (ex_request [''a'', ''b'']) [''id'' \<mapsto> Val ''a'']) = Some ''Model a''"
    by (simp add: ex_get_model_def factory_variables_def)
  have upd: "(ex_request [''a'', ''b''])\<lparr>unconsumed := [''b'']\<rparr> = ex_request [''b'']"
    by (simp add: ex_request_def)
  show ?thesis
    using
      traject_consume_unconsumed_atomic [where generic_traject = ex_generic_traject
        and generic_context = ex_generic_context and lkp = ?L and model = "''Other''"
        and req = "ex_request [''a'', ''b'']"]
      traject_consume_unconsumed_atomic [where generic_traject = ex_generic_traject
        and generic_context = ex_generic_context and lkp = ?L and model = "''App''"
        and req = "ex_request [''nothing'', ''b'']" and traject = ex_traject
        and stack = "[''nothing'', ''b'']" and tv = Map.empty]
      traject_consume_unconsumed_atomic [where generic_traject = ex_generic_traject
        and generic_context = ex_generic_context and lkp = ?L and model = "''Bare''"
        and req = "ex_request [''a'', ''b'']" and traject = ex_traject
        and get_model = ex_get_model and get_parameters = "\<lambda>q. Map.empty"
        and stack = "[''b'']" and tv = "[''id'' \<mapsto> Val ''a'']"]
      traject_consume_unconsumed_atomic [where generic_traject = ex_generic_traject
        and generic_context = ex_generic_context and lkp = ?L and model = "''App''"
        and req = "ex_request [''missing'', ''b'']" and traject = ex_traject
        and get_model = ex_get_model and get_parameters = "\<lambda>q. Map.empty"
        and stack = "[''b'']" and tv = "[''id'' \<mapsto> Val ''missing'']" and ctx = Map.empty]
      traject_consume_unconsumed_atomic [where generic_traject = ex_generic_traject
        and generic_context = ex_generic_context and lkp = ?L and model = "''App''"
        and req = "ex_request [''a'', ''b'']" and traject = ex_traject
        and get_model = ex_get_model and get_parameters = "\<lambda>q. Map.empty"
        and stack = "[''b'']" and tv = "[''id'' \<mapsto> Val ''a'']" and ctx = Map.empty
        and next_model = "''Model a''"]
    by (simp add: no_traject traject ctx no_match match absent present upd)
qed


section \<open>Properties of \<^verbatim>\<open>follow_defers\<close>\<close>

lemma defer_chain_shift:
  "defer_chain d obj (Some a) (Suc n) = defer_chain d obj (d (lookup_of a) a obj) n"
  by (induction n) simp_all

lemma defer_chain_None: "defer_chain d obj None n = None"
  by (induction n) simp_all

lemma visited_0: "visited d obj ap 0 = {}"
  by (simp add: visited_def)

lemma visited_shift:
  "visited d obj (Some a) (Suc n) = insert a (visited d obj (d (lookup_of a) a obj) n)"
proof -
  have "{..<Suc n} = insert 0 (Suc ` {..<n})"
    by (simp add: lessThan_Suc_eq_insert_0)
  then have "defer_chain d obj (Some a) ` {..<Suc n} =
      insert (Some a) (defer_chain d obj (d (lookup_of a) a obj) ` {..<n})"
    by (simp add: image_image defer_chain_shift del: defer_chain.simps(2))
  then show ?thesis
    by (simp add: visited_def)
qed

lemma walk_stops_shift:
  "a \<notin> seen \<Longrightarrow>
   walk_stops f d obj seen (Some a) (Suc n) =
   walk_stops f d obj (insert a seen) (d (lookup_of a) a obj) n"
  by (auto simp: walk_stops_def defer_chain_shift visited_shift simp del: defer_chain.simps
      split: option.splits)

lemma walk_outcome_shift:
  "walk_outcome f d obj seen (Some a) (Suc n) =
   walk_outcome f d obj (insert a seen) (d (lookup_of a) a obj) n"
  by (auto simp: walk_outcome_def defer_chain_shift visited_shift simp del: defer_chain.simps
      split: option.splits)

lemma follow_defers_loop_first_stop:
  "walk_stops f d obj seen ap n \<Longrightarrow> (\<forall>i<n. \<not> walk_stops f d obj seen ap i) \<Longrightarrow>
   follow_defers_loop f d obj seen ap = Some (walk_outcome f d obj seen ap n)"
proof (induction n arbitrary: seen ap)
  case 0
  then show ?case
    by (subst follow_defers_loop.simps)
       (auto simp: walk_stops_def walk_outcome_def visited_0 split: option.splits)
next
  case (Suc n)
  from Suc.prems(2) have n0: "\<not> walk_stops f d obj seen ap 0" by blast
  then obtain a where ap: "ap = Some a" and a: "a \<notin> seen" "f a obj = None"
    by (auto simp: walk_stops_def split: option.splits)
  let ?next = "d (lookup_of a) a obj"
  have s: "walk_stops f d obj (insert a seen) ?next n"
    using Suc.prems(1) a ap by (simp add: walk_stops_shift)
  have ns: "\<forall>i<n. \<not> walk_stops f d obj (insert a seen) ?next i"
  proof (intro allI impI)
    fix i assume "i < n"
    then have "\<not> walk_stops f d obj seen ap (Suc i)" using Suc.prems(2) by simp
    then show "\<not> walk_stops f d obj (insert a seen) ?next i"
      using a ap by (simp add: walk_stops_shift)
  qed
  have "follow_defers_loop f d obj (insert a seen) ?next =
      Some (walk_outcome f d obj (insert a seen) ?next n)"
    by (rule Suc.IH [OF s ns])
  then show ?case
    using a ap by (subst follow_defers_loop.simps) (simp add: walk_outcome_shift)
qed


lemma walk_stops_exists:
  assumes fin: "finite (chain_apps d obj ap)"
  shows "\<exists>n. walk_stops f d obj seen ap n"
proof (rule ccontr)
  assume "\<not> ?thesis"
  then have never: "\<And>n. \<not> walk_stops f d obj seen ap n" by blast
  have some: "\<exists>a. defer_chain d obj ap n = Some a \<and> a \<notin> visited d obj ap n" for n
    using never [of n] by (auto simp: walk_stops_def split: option.splits)
  define g where "g n = the (defer_chain d obj ap n)" for n
  have g: "defer_chain d obj ap n = Some (g n)" for n
    using some [of n] by (auto simp: g_def)
  have earlier: "g i \<in> visited d obj ap j" if "i < j" for i j
    unfolding visited_def Option.these_def using g [of i] that
    by (force simp: image_iff simp del: defer_chain.simps)
  have "inj g"
  proof (rule injI)
    fix i j assume eq: "g i = g j"
    show "i = j"
    proof (rule ccontr)
      assume "i \<noteq> j"
      then consider "i < j" | "j < i" by linarith
      then show False
      proof cases
        case 1
        from earlier [OF 1] some [of j] g [of j] eq show False by simp
      next
        case 2
        from earlier [OF 2] some [of i] g [of i] eq show False by simp
      qed
    qed
  qed
  moreover have "range g \<subseteq> chain_apps d obj ap"
    using g by (auto simp: chain_apps_def)
  ultimately have "finite (UNIV :: nat set)"
    using fin by (meson finite_imageD finite_subset)
  then show False by simp
qed

lemma walk_outcome_cases:
  "walk_stops f d obj seen ap n \<Longrightarrow>
   walk_outcome f d obj seen ap n = Inl circular_defer \<or>
   walk_outcome f d obj seen ap n = Inr (None, None) \<or>
   (\<exists>r a. walk_outcome f d obj seen ap n = Inr (Some r, Some a) \<and> f a obj = Some r)"
  by (auto simp: walk_stops_def walk_outcome_def split: option.splits)

lemma fresh_walk_never_returns:
  assumes ret: "follow_defers_loop f d obj seen ap = Some r"
  shows "f = ex_find_nothing \<and> d = ex_fresh_defer \<longrightarrow>
         (\<forall>a. ap = Some a \<longrightarrow> (\<exists>s\<in>seen. app_id a \<le> app_id s))"
proof (rule follow_defers_loop.raw_induct
    [where P = "\<lambda>f d obj seen ap r. f = ex_find_nothing \<and> d = ex_fresh_defer \<longrightarrow>
        (\<forall>a. ap = Some a \<longrightarrow> (\<exists>s\<in>seen. app_id a \<le> app_id s))", OF _ ret])
  fix loop :: "(app \<Rightarrow> string \<Rightarrow> string option) \<Rightarrow> (lookup \<Rightarrow> app \<Rightarrow> string \<Rightarrow> app option) \<Rightarrow>
      string \<Rightarrow> app set \<Rightarrow> app option \<Rightarrow> (exn + string option \<times> app option) option"
    and f d obj seen ap r
  assume IH: "\<And>f d obj seen ap r. loop f d obj seen ap = Some r \<Longrightarrow>
      f = ex_find_nothing \<and> d = ex_fresh_defer \<longrightarrow>
      (\<forall>a. ap = Some a \<longrightarrow> (\<exists>s\<in>seen. app_id a \<le> app_id s))"
    and eq: "(case ap of
        None \<Rightarrow> Some (Inr (None, None))
      | Some a \<Rightarrow>
          if a \<in> seen then Some (Inl circular_defer)
          else (case f a obj of
                  None \<Rightarrow> loop f d obj (insert a seen) (d (lookup_of a) a obj)
                | Some result \<Rightarrow> Some (Inr (Some result, Some a)))) = Some r"
  show "f = ex_find_nothing \<and> d = ex_fresh_defer \<longrightarrow>
      (\<forall>a. ap = Some a \<longrightarrow> (\<exists>s\<in>seen. app_id a \<le> app_id s))"
  proof (intro impI allI)
    fix a assume fd: "f = ex_find_nothing \<and> d = ex_fresh_defer" and ap: "ap = Some a"
    show "\<exists>s\<in>seen. app_id a \<le> app_id s"
    proof (cases "a \<in> seen")
      case True
      then show ?thesis by blast
    next
      case False
      with eq ap fd have "loop f d obj (insert a seen)
          (Some (App ''Child'' (Suc (app_id a)) (Some a))) = Some r"
        by (simp add: ex_find_nothing_def ex_fresh_defer_def)
      from IH [OF this] fd
      obtain s where "s \<in> insert a seen" "Suc (app_id a) \<le> app_id s" by auto
      then have "s \<in> seen" "app_id a \<le> app_id s" by auto
      then show ?thesis by blast
    qed
  qed
qed

lemma child_parent_chain:
  "defer_chain ex_child_parent_defer ''obj'' (Some ex_app_a) n
     \<in> {Some ex_app_a, Some (App ''Child'' 2 (Some ex_app_a))}"
  by (induction n) (auto simp: ex_child_parent_defer_def ex_app_a_def)

lemma child_parent_finite: "finite (chain_apps ex_child_parent_defer ''obj'' (Some ex_app_a))"
proof -
  have "chain_apps ex_child_parent_defer ''obj'' (Some ex_app_a)
      \<subseteq> {ex_app_a, App ''Child'' 2 (Some ex_app_a)}"
  proof
    fix b assume "b \<in> chain_apps ex_child_parent_defer ''obj'' (Some ex_app_a)"
    then obtain n where "defer_chain ex_child_parent_defer ''obj'' (Some ex_app_a) n = Some b"
      by (auto simp: chain_apps_def)
    with child_parent_chain [of n] show "b \<in> {ex_app_a, App ''Child'' 2 (Some ex_app_a)}"
      by auto
  qed
  then show ?thesis by (rule finite_subset) simp
qed

lemma child_parent_run:
  "follow_defers ex_find_nothing ex_child_parent_defer (Some ex_app_a) ''obj'' =
     Some (Inl circular_defer)"
  by (simp add: follow_defers_def follow_defers_loop.simps ex_find_nothing_def
      ex_child_parent_defer_def ex_app_a_def)

text \<open>
  C2 (as amended). When the chain of applications that starts at \<open>ap\<close> holds only finitely
  many applications, the walk of \<^verbatim>\<open>follow_defers\<close> returns or raises: it ends at the first
  step where the chain has ended (result \<^verbatim>\<open>(None, None)\<close>), where the application was already
  visited in this walk (the circular-defer \<^verbatim>\<open>LinkError\<close>), or where \<^verbatim>\<open>find\<close> produces a result
  (that result and its application).
\<close>

theorem follow_defers_terminates:
  assumes "finite (chain_apps deferred_link_app obj ap)"
  shows "\<exists>n. walk_stops find_fn deferred_link_app obj {} ap n \<and>
             (\<forall>i<n. \<not> walk_stops find_fn deferred_link_app obj {} ap i) \<and>
             follow_defers find_fn deferred_link_app ap obj =
               Some (walk_outcome find_fn deferred_link_app obj {} ap n) \<and>
             (walk_outcome find_fn deferred_link_app obj {} ap n = Inl circular_defer \<or>
              walk_outcome find_fn deferred_link_app obj {} ap n = Inr (None, None) \<or>
              (\<exists>r a. walk_outcome find_fn deferred_link_app obj {} ap n = Inr (Some r, Some a) \<and>
                     find_fn a obj = Some r))"
proof -
  from walk_stops_exists [OF assms]
  obtain m where "walk_stops find_fn deferred_link_app obj {} ap m" by blast
  then obtain n where n: "walk_stops find_fn deferred_link_app obj {} ap n"
    and least: "\<forall>i<n. \<not> walk_stops find_fn deferred_link_app obj {} ap i"
    using exists_least_iff [of "walk_stops find_fn deferred_link_app obj {} ap"] by blast
  have "follow_defers find_fn deferred_link_app ap obj =
      Some (walk_outcome find_fn deferred_link_app obj {} ap n)"
    unfolding follow_defers_def by (rule follow_defers_loop_first_stop [OF n least])
  with n least walk_outcome_cases [OF n] show ?thesis by blast
qed

text \<open>
  The root defers to a child instance and the child to \<^verbatim>\<open>app.parent\<close>: the chain holds two
  applications, and the walk raises the circular-defer error when it comes back to the
  root.
\<close>

theorem follow_defers_terminates_witness:
  "finite (chain_apps ex_child_parent_defer ''obj'' (Some ex_app_a)) \<and>
   (\<exists>n. walk_stops ex_find_nothing ex_child_parent_defer ''obj'' {} (Some ex_app_a) n \<and>
        follow_defers ex_find_nothing ex_child_parent_defer (Some ex_app_a) ''obj'' =
          Some (walk_outcome ex_find_nothing ex_child_parent_defer ''obj'' {} (Some ex_app_a) n)) \<and>
   follow_defers ex_find_nothing ex_child_parent_defer (Some ex_app_a) ''obj'' =
     Some (Inl circular_defer)"
proof -
  note fin = child_parent_finite
  from follow_defers_terminates [OF fin, of ex_find_nothing] fin child_parent_run
  show ?thesis by blast
qed

text \<open>
  Two walks that end in neither of the two ways the claim names. An application that
  finds nothing and defers to no application: the walk returns \<^verbatim>\<open>(None, None)\<close>, neither a
  result nor the circular-defer error. Applications that find nothing and each defer to
  a new child instance (what \<^verbatim>\<open>app.child\<close> creates): no application is visited twice and the
  walk never returns.
\<close>

theorem follow_defers_chain_end_counterexample:
  "follow_defers ex_find_nothing ex_no_defer (Some ex_app_a) ''obj'' = Some (Inr (None, None)) \<and>
   follow_defers ex_find_nothing ex_fresh_defer (Some ex_app_a) ''obj'' = None"
proof
  show "follow_defers ex_find_nothing ex_no_defer (Some ex_app_a) ''obj'' =
      Some (Inr (None, None))"
    by (simp add: follow_defers_def follow_defers_loop.simps ex_find_nothing_def ex_no_defer_def)
next
  show "follow_defers ex_find_nothing ex_fresh_defer (Some ex_app_a) ''obj'' = None"
  proof (cases "follow_defers ex_find_nothing ex_fresh_defer (Some ex_app_a) ''obj''")
    case None
    then show ?thesis .
  next
    case (Some r)
    then show ?thesis
      using fresh_walk_never_returns
        [of ex_find_nothing ex_fresh_defer "''obj''" "{}" "Some ex_app_a" r]
      by (simp add: follow_defers_def)
  qed
qed

section \<open>Properties of link building\<close>

lemma mounted_link_loop_fragments:
  "mounted_link_loop gp result ps a (parent a) =
     (case those (mount_fragments gp a) of
        None \<Rightarrow> None
      | Some frags \<Rightarrow> Some (result @ map fst frags, foldl dict_update ps (map snd frags)))"
proof (induction gp a arbitrary: result ps rule: mount_fragments.induct)
  case (1 gp c i)
  then show ?case by simp
next
  case (2 gp c i p)
  show ?case
    by (simp add: "2.IH" split: option.splits)
qed

lemma mounted_link_fragments:
  "mounted_link gp path ps a =
     (case those (mount_fragments gp a) of
        None \<Rightarrow> None
      | Some frags \<Rightarrow>
          Some (strip ''/'' (join ''/'' (rev (map fst frags) @ [path])),
                foldl dict_update ps (map snd frags)))"
  by (simp add: mounted_link_def mounted_link_loop_fragments split: option.splits)

lemma those_None_iff: "those xs = None \<longleftrightarrow> None \<in> set xs"
  by (induction xs) (auto split: option.splits)

lemma link_fragments:
  "link gp obj a =
     (case gp (lookup_of a) (Model obj) of
        None \<Rightarrow> None
      | Some (path, parameters) \<Rightarrow>
          (case those (mount_fragments gp a) of
             None \<Rightarrow> None
           | Some frags \<Rightarrow>
               Some (strip ''/'' (join ''/'' (rev (map fst frags) @ [path])),
                     foldl dict_update parameters (map snd frags))))"
  by (simp add: link_def mounted_link_fragments split: option.splits)

lemma follow_defers_found:
  "find_fn a obj = Some r \<Longrightarrow>
   follow_defers find_fn d (Some a) obj = Some (Inr (Some r, Some a))"
  by (simp add: follow_defers_def follow_defers_loop.simps)

lemma follow_defers_not_found:
  "find_fn a obj = None \<Longrightarrow> d (lookup_of a) a obj = None \<Longrightarrow>
   follow_defers find_fn d (Some a) obj = Some (Inr (None, None))"
  by (simp add: follow_defers_def follow_defers_loop.simps)

text \<open>
  C1 (as amended). The link built for a model object in an application is the model's own
  path there, preceded by the path of each mount above the application from the root
  down, joined with \<^verbatim>\<open>/\<close> and stripped of slashes at both ends, with the URL parameters of
  each mount merged in; if some mount has no path, no link is built in that application.
  \<^verbatim>\<open>Request.link\<close> then raises a \<^verbatim>\<open>LinkError\<close> when the application defers the object's links to
  no other application; when a link is built, it returns the encoded URL.
\<close>

theorem link_through_mount_chain:
  "link generic_path obj a =
     (case generic_path (lookup_of a) (Model obj) of
        None \<Rightarrow> None
      | Some (path, parameters) \<Rightarrow>
          (case those (mount_fragments generic_path a) of
             None \<Rightarrow> None
           | Some frags \<Rightarrow>
               Some (strip ''/'' (join ''/'' (rev (map fst frags) @ [path])),
                     foldl dict_update parameters (map snd frags)))) \<and>
   (None \<in> set (mount_fragments generic_path a) \<longrightarrow> link generic_path obj a = None) \<and>
   (link generic_path obj a = None \<and> deferred_link_app (lookup_of a) a obj = None \<longrightarrow>
      Request_link tilde_safe generic_path deferred_link_app generic_link_prefix req
        (Some obj) name dflt (Given (Some a)) = Some (Inl cannot_link, req)) \<and>
   (link generic_path obj a = Some (path', parameters') \<longrightarrow>
      Request_link tilde_safe generic_path deferred_link_app generic_link_prefix req
        (Some obj) name dflt (Given (Some a)) =
      (case encode_link tilde_safe generic_link_prefix req path' name parameters' of
         (url, req') \<Rightarrow> Some (Inr (Some url), req')))"
proof (intro conjI impI)
  show "link generic_path obj a =
     (case generic_path (lookup_of a) (Model obj) of
        None \<Rightarrow> None
      | Some (path, parameters) \<Rightarrow>
          (case those (mount_fragments generic_path a) of
             None \<Rightarrow> None
           | Some frags \<Rightarrow>
               Some (strip ''/'' (join ''/'' (rev (map fst frags) @ [path])),
                     foldl dict_update parameters (map snd frags))))"
    by (rule link_fragments)
next
  assume "None \<in> set (mount_fragments generic_path a)"
  then have "those (mount_fragments generic_path a) = None"
    by (simp add: those_None_iff)
  then show "link generic_path obj a = None"
    by (simp add: link_fragments split: option.splits)
next
  assume "link generic_path obj a = None \<and> deferred_link_app (lookup_of a) a obj = None"
  then have "follow_defers (\<lambda>a ob. link generic_path ob a) deferred_link_app (Some a) obj =
      Some (Inr (None, None))"
    by (simp add: follow_defers_not_found)
  then show "Request_link tilde_safe generic_path deferred_link_app generic_link_prefix req
        (Some obj) name dflt (Given (Some a)) = Some (Inl cannot_link, req)"
    by (simp add: Request_link_def)
next
  assume "link generic_path obj a = Some (path', parameters')"
  then have "follow_defers (\<lambda>a ob. link generic_path ob a) deferred_link_app (Some a) obj =
      Some (Inr (Some (path', parameters'), Some a))"
    by (simp add: follow_defers_found)
  then show "Request_link tilde_safe generic_path deferred_link_app generic_link_prefix req
        (Some obj) name dflt (Given (Some a)) =
      (case encode_link tilde_safe generic_link_prefix req path' name parameters' of
         (url, req') \<Rightarrow> Some (Inr (Some url), req'))"
    by (simp add: Request_link_def)
qed

theorem link_through_mount_chain_witness:
  "link ex_generic_path ''foo'' ex_inner =
     Some (''inner/foo'', [(''page'', [''2'']), (''lang'', [''en''])]) \<and>
   Request_link True ex_generic_path ex_no_defer ex_link_prefix (ex_request_in ex_inner)
     (Some ''foo'') [] None (Given (Some ex_inner)) =
     Some (Inr (Some ''http://localhost/inner/foo?page=2&lang=en''),
           (ex_request_in ex_inner)\<lparr>link_prefix_cache := [(''Inner'', ''http://localhost'')]\<rparr>) \<and>
   None \<in> set (mount_fragments ex_generic_path ex_orphan) \<and>
   Request_link True ex_generic_path ex_no_defer ex_link_prefix (ex_request_in ex_orphan)
     (Some ''foo'') [] None (Given (Some ex_orphan)) =
     Some (Inl cannot_link, ex_request_in ex_orphan)"
proof -
  have built: "link ex_generic_path ''foo'' ex_inner =
      Some (''inner/foo'', [(''page'', [''2'']), (''lang'', [''en''])])"
    by code_simp
  have url: "encode_link True ex_link_prefix (ex_request_in ex_inner) ''inner/foo'' []
      [(''page'', [''2'']), (''lang'', [''en''])] =
      (''http://localhost/inner/foo?page=2&lang=en'',
       (ex_request_in ex_inner)\<lparr>link_prefix_cache := [(''Inner'', ''http://localhost'')]\<rparr>)"
    by code_simp
  have broken: "None \<in> set (mount_fragments ex_generic_path ex_orphan)"
    by code_simp
  have no_defer: "ex_no_defer (lookup_of ex_orphan) ex_orphan ''foo'' = None"
    by (simp add: ex_no_defer_def)
  have none: "link ex_generic_path ''foo'' ex_orphan = None"
    using broken
      link_through_mount_chain [where generic_path = ex_generic_path and obj = "''foo''"
        and a = ex_orphan]
    by blast
  have raised: "Request_link True ex_generic_path ex_no_defer ex_link_prefix
      (ex_request_in ex_orphan) (Some ''foo'') [] None (Given (Some ex_orphan)) =
      Some (Inl cannot_link, ex_request_in ex_orphan)"
    using none no_defer
      link_through_mount_chain [where generic_path = ex_generic_path and obj = "''foo''"
        and a = ex_orphan and deferred_link_app = ex_no_defer]
    by blast
  have "Request_link True ex_generic_path ex_no_defer ex_link_prefix
      (ex_request_in ex_inner) (Some ''foo'') [] None (Given (Some ex_inner)) =
      (case encode_link True ex_link_prefix (ex_request_in ex_inner) ''inner/foo'' []
              [(''page'', [''2'']), (''lang'', [''en''])] of
         (url, req') \<Rightarrow> Some (Inr (Some url), req'))"
    using built
      link_through_mount_chain [where generic_path = ex_generic_path and obj = "''foo''"
        and a = ex_inner and path' = "''inner/foo''"
        and parameters' = "[(''page'', [''2'']), (''lang'', [''en''])]"]
    by blast
  then have returned: "Request_link True ex_generic_path ex_no_defer ex_link_prefix
      (ex_request_in ex_inner) (Some ''foo'') [] None (Given (Some ex_inner)) =
      Some (Inr (Some ''http://localhost/inner/foo?page=2&lang=en''),
           (ex_request_in ex_inner)\<lparr>link_prefix_cache := [(''Inner'', ''http://localhost'')]\<rparr>)"
    by (simp add: url)
  from built returned broken raised show ?thesis by blast
qed

text \<open>
  The orphaned \<^verbatim>\<open>Inner\<close> has a path for the model, the application above it has none for
  the mount, and \<^verbatim>\<open>Inner\<close> defers the model's links to \<^verbatim>\<open>Outer\<close>: \<^verbatim>\<open>Request.link\<close> returns a
  URL, built in \<^verbatim>\<open>Outer\<close>.
\<close>

theorem link_broken_chain_deferred_counterexample:
  "None \<in> set (mount_fragments ex_generic_path ex_orphan) \<and>
   map_option fst
     (Request_link True ex_generic_path ex_defer_to_outer ex_link_prefix
        (ex_request_in ex_orphan) (Some ''foo'') [] None (Given (Some ex_orphan))) =
   Some (Inr (Some ''http://localhost/shared/foo''))"
  by code_simp

section \<open>Properties of URL encoding\<close>

declare str_replace.simps [simp del]







lemma str_replace_Nil [simp]: "old \<noteq> [] \<Longrightarrow> str_replace old new [] = []"
  by (simp add: str_replace.simps)












lemma hex_digit_tilde: "hex_digit (126 div 16) = CHR ''7''" "hex_digit (126 mod 16) = CHR ''E''"
  by (simp_all add: hex_digit_def)






lemma is_upper_hex_not_percent: "is_upper_hex h \<Longrightarrow> h \<noteq> CHR ''%''"
  by (auto simp: is_upper_hex_def)

lemma no_tilde_escape_any: "no_tilde_escape h1 h2 \<Longrightarrow> any_escape h1 h2"
  by (simp add: no_tilde_escape_def any_escape_def is_upper_hex_not_percent)


























end
